theory Spec2Isabelle
  imports Complex_Main
begin

section \<open>Shallow embedding of \<open>sentencepiece_processor.cc\<close>\<close>

text \<open>
  The C++ types are embedded as follows.  A \<open>std::string\<close> is a \<open>string\<close> (a list of
  bytes), a \<open>std::vector\<close> is a list, an index or a \<open>size_t\<close> is a \<open>nat\<close>, and an
  \<open>int\<close> is an \<open>int\<close>: a mathematical integer, which does not wrap.  The fold counts the
  pieces of a run and the unfold reads the count back, so on the fold of a sequence of
  fewer than \<open>10 ^ 9\<close> pieces no value leaves the range of a 32-bit \<open>int\<close>; beyond it
  C++ leaves the arithmetic undefined, and the embedding goes on with the mathematical
  value.

  Everything that is not a normal return is a value of \<open>error\<close>: the status codes of
  \<open>util::Status\<close>, the exceptions of the standard library, and the reads outside a
  container, which C++ leaves undefined.
\<close>

datatype error =
    Internal              \<comment> \<open>\<open>util::StatusCode::kInternal\<close>, every \<open>CHECK_..._OR_RETURN\<close>\<close>
  | NotFound
  | InvalidArgument
  | Collaborator          \<comment> \<open>an error of the model or of the normalizer, propagated as it is\<close>
  | OutOfBounds           \<comment> \<open>a read outside a vector (undefined behaviour)\<close>
  | NullPointer           \<comment> \<open>a dereferenced null \<open>unique_ptr\<close> (undefined behaviour)\<close>
  | StoiInvalidArgument   \<comment> \<open>\<open>std::invalid_argument\<close> thrown by \<open>std::stoi\<close>\<close>
  | StoiOutOfRange        \<comment> \<open>\<open>std::out_of_range\<close> thrown by \<open>std::stoi\<close>\<close>
  | LengthError           \<comment> \<open>\<open>std::length_error\<close> thrown by \<open>vector::insert\<close>\<close>

subsection \<open>Library functions used by the run-length layer\<close>

text \<open>\<open>std::find\<close>, as the distance of the iterator it returns from \<open>begin()\<close>: the index
  of the first occurrence, or the length of the list when there is none.\<close>

fun find_pos :: "'a list \<Rightarrow> 'a \<Rightarrow> nat" where
  "find_pos [] x = 0"
| "find_pos (y # ys) x = (if y = x then 0 else Suc (find_pos ys x))"

definition digit_char :: "nat \<Rightarrow> char" where
  "digit_char d = ''0123456789'' ! d"

text \<open>\<open>std::to_string(int)\<close>: the decimal digits, after a minus sign for a negative value.\<close>

function nat_digits :: "nat \<Rightarrow> string" where
  "nat_digits n = (if n < 10 then [digit_char n] else nat_digits (n div 10) @ [digit_char (n mod 10)])"
  by pat_completeness auto
termination
  by (relation "measure id") auto

declare nat_digits.simps [simp del]

definition to_string :: "int \<Rightarrow> string" where
  "to_string d = (if d < 0 then CHR ''-'' # nat_digits (nat (- d)) else nat_digits (nat d))"

text \<open>\<open>std::stoi\<close> in base 10: white space is skipped, one sign is read, then the longest
  run of digits; no digit at all is \<open>std::invalid_argument\<close>, a value that does not fit an
  \<open>int\<close> is \<open>std::out_of_range\<close>, and what follows the digits is ignored.\<close>

definition isspace :: "char \<Rightarrow> bool" where
  "isspace c = (c \<in> set [CHR '' '', CHR 0x09, CHR 0x0A, CHR 0x0B, CHR 0x0C, CHR 0x0D])"

definition isdigit :: "char \<Rightarrow> bool" where
  "isdigit c = (c \<in> set ''0123456789'')"

primrec digits_value :: "string \<Rightarrow> int \<Rightarrow> int" where
  "digits_value [] acc = acc"
| "digits_value (c # cs) acc = digits_value cs (acc * 10 + int (find_pos ''0123456789'' c))"

definition stoi :: "string \<Rightarrow> error + int" where
  "stoi s =
     (let s1 = dropWhile isspace s;
          neg = (s1 \<noteq> [] \<and> hd s1 = CHR ''-'');
          s2 = (if s1 \<noteq> [] \<and> (hd s1 = CHR ''-'' \<or> hd s1 = CHR ''+'') then tl s1 else s1);
          ds = takeWhile isdigit s2
      in if ds = [] then Inl StoiInvalidArgument
         else let v = (if neg then - digits_value ds 0 else digits_value ds 0)
              in if v < - (2 ^ 31) \<or> 2 ^ 31 - 1 < v then Inl StoiOutOfRange else Inr v)"

subsection \<open>Run-length folding\<close>

definition kStartRepeat :: string where
  "kStartRepeat = ''(#startrepeat)''"

definition kEndRepeat :: string where
  "kEndRepeat = ''(#endrepeat)''"

text \<open>\<open>extract_each_digit\<close>: the loop pushes \<open>x % 10\<close> while \<open>x > 0\<close>, then the vector is
  reversed.  For a positive \<open>x\<close> the truncating \<open>/\<close> and \<open>%\<close> of C++ are \<open>div\<close> and
  \<open>mod\<close>.\<close>

function extract_each_digit_loop :: "int \<Rightarrow> int list \<Rightarrow> int list" where
  "extract_each_digit_loop x digits =
     (if x > 0 then extract_each_digit_loop (x div 10) (digits @ [x mod 10]) else digits)"
  by pat_completeness auto
termination
  by (relation "measure (\<lambda>(x, digits). nat x)") auto

declare extract_each_digit_loop.simps [simp del]

definition extract_each_digit :: "int \<Rightarrow> int list" where
  "extract_each_digit x = rev (extract_each_digit_loop x [])"

text \<open>The inner \<open>while\<close> of \<open>rle\<close>: it advances \<open>i\<close> over the pieces equal to their
  successor and counts them.  The guard \<open>i < n - 1\<close> on \<open>int\<close> is \<open>i + 1 < n\<close> on
  \<open>nat\<close>.\<close>

function rle_run :: "string list \<Rightarrow> nat \<Rightarrow> int \<Rightarrow> nat \<times> int" where
  "rle_run pieces i count =
     (if i + 1 < length pieces \<and> pieces ! i = pieces ! (i + 1)
      then rle_run pieces (i + 1) (count + 1) else (i, count))"
  by pat_completeness auto
termination
  by (relation "measure (\<lambda>(pieces, i, count). length pieces - i)") auto

declare rle_run.simps [simp del]

text \<open>What one round of the \<open>for\<close> loop appends to \<open>tokens\<close> once the run is counted.\<close>

definition rle_emit :: "string \<Rightarrow> int \<Rightarrow> string list" where
  "rle_emit w count =
     (if count > 1
      then [w, kStartRepeat] @ map to_string (extract_each_digit count) @ [kEndRepeat]
      else [w])"

lemma rle_run_ge: "i \<le> fst (rle_run pieces i count)"
proof (induction pieces i count rule: rle_run.induct)
  case (1 pieces i count)
  show ?case
  proof (cases "i + 1 < length pieces \<and> pieces ! i = pieces ! (i + 1)")
    case True
    then have "i + 1 \<le> fst (rle_run pieces (i + 1) (count + 1))" by (rule 1)
    moreover have "rle_run pieces i count = rle_run pieces (i + 1) (count + 1)"
      using True by (subst rle_run.simps) simp
    ultimately show ?thesis by simp
  next
    case False
    have "rle_run pieces i count = (i, count)"
      by (subst rle_run.simps) (simp only: False if_False)
    then show ?thesis by simp
  qed
qed

function rle_loop :: "string list \<Rightarrow> nat \<Rightarrow> string list \<Rightarrow> string list" where
  "rle_loop pieces i tokens =
     (if i < length pieces
      then (case rle_run pieces i 1 of
              (j, count) \<Rightarrow> rle_loop pieces (j + 1) (tokens @ rle_emit (pieces ! j) count))
      else tokens)"
  by pat_completeness auto
termination
proof (relation "measure (\<lambda>(pieces, i, tokens). length pieces - i)", goal_cases)
  case 1
  show ?case by simp
next
  case (2 pieces i tokens j count)
  have "i \<le> fst (rle_run pieces i 1)" by (rule rle_run_ge)
  with 2(2) have "i \<le> j" by (metis fst_conv)
  with 2(1) show ?case by simp
qed

declare rle_loop.simps [simp del]

text \<open>\<open>rle(pieces, tokens)\<close> appends to \<open>tokens\<close>, which is empty at both calls.\<close>

definition rle :: "string list \<Rightarrow> string list" where
  "rle pieces = rle_loop pieces 0 []"

subsection \<open>Run-length unfolding of pieces\<close>

text \<open>\<open>VectorToInt\<close>: the reversed vector is read with a weight that is multiplied by 10
  after every element.\<close>

primrec VectorToInt_loop :: "int list \<Rightarrow> int \<Rightarrow> int \<Rightarrow> int" where
  "VectorToInt_loop [] decimal sum_total = sum_total"
| "VectorToInt_loop (it # v) decimal sum_total =
     VectorToInt_loop v (decimal * 10) (sum_total + it * decimal)"

definition VectorToInt :: "int list \<Rightarrow> int" where
  "VectorToInt v = VectorToInt_loop (rev v) 1 0"

text \<open>The loop \<open>while (j != end_position)\<close> of \<open>_expand_from_pieces\<close>.  It cannot stop
  before \<open>j\<close> meets \<open>end_position\<close>, so when \<open>end_position\<close> lies before it, the loop reads
  \<open>pieces[j]\<close> past the last element.\<close>

function collect_num :: "string list \<Rightarrow> nat \<Rightarrow> nat \<Rightarrow> int list \<Rightarrow> error + int list" where
  "collect_num pieces j end_position num =
     (if j = end_position then Inr num
      else if length pieces \<le> j then Inl OutOfBounds
      else (case stoi (pieces ! j) of
              Inl e \<Rightarrow> Inl e
            | Inr d \<Rightarrow> collect_num pieces (j + 1) end_position (num @ [d])))"
  by pat_completeness auto
termination
  by (relation "measure (\<lambda>(pieces, j, end_position, num). length pieces - j)") auto

declare collect_num.simps [simp del]

text \<open>\<open>_expand_from_pieces\<close>, named \<open>expand_from_pieces_once\<close> since a name cannot start
  with an underscore.  The repeat token is read at \<open>start_position - 1\<close> before
  anything is tested, which is index \<open>-1\<close> when the marker is the first piece.
  \<open>erase(it1, it2 + 1)\<close> followed by \<open>insert(it1, count, repeat_token)\<close> leaves the pieces
  before the marker, \<open>count\<close> copies of the token, and the pieces after the end marker; a
  negative \<open>count\<close> becomes a huge \<open>size_type\<close> and \<open>insert\<close> throws.\<close>

definition expand_from_pieces_once :: "string list \<Rightarrow> error + string list" where
  "expand_from_pieces_once pieces =
     (let start_position = find_pos pieces kStartRepeat;
          end_position = find_pos pieces kEndRepeat
      in if start_position = 0 then Inl OutOfBounds
         else let repeat_token = pieces ! (start_position - 1)
              in if start_position \<noteq> length pieces \<and> end_position \<noteq> length pieces
                 then (case collect_num pieces (start_position + 1) end_position [] of
                         Inl e \<Rightarrow> Inl e
                       | Inr num \<Rightarrow>
                           let count = VectorToInt num - 1
                           in if count < 0 then Inl LengthError
                              else Inr (take start_position pieces
                                        @ replicate (nat count) repeat_token
                                        @ drop (end_position + 1) pieces))
                 else Inr pieces)"

text \<open>\<open>expand_from_pieces\<close>: the \<open>while\<close> loop runs as long as a start marker is found.
  The result is \<open>None\<close> when the loop does not end.\<close>

partial_function (option) expand_from_pieces :: "string list \<Rightarrow> (error + string list) option" where
  "expand_from_pieces pieces =
     (if find_pos pieces kStartRepeat \<noteq> length pieces
      then (case expand_from_pieces_once pieces of
              Inl e \<Rightarrow> Some (Inl e)
            | Inr pieces' \<Rightarrow> expand_from_pieces pieces')
      else Some (Inr pieces))"

declare expand_from_pieces.simps [code]

subsection \<open>The collaborators of the processor\<close>

text \<open>
  The subword model (\<open>ModelInterface\<close>, reached through \<open>model_\<close>) and the normalizer are
  not part of \<open>sentencepiece_processor.cc\<close>; the processor only calls them.  They are
  parameters of the embedding: a record holds one function for every member function the
  processor calls.  A \<open>float\<close> is a \<open>real\<close>.
\<close>

datatype piece_type = NORMAL | UNKNOWN | CONTROL | USER_DEFINED | UNUSED | BYTE

record ModelInterface =
  model_status :: "error option"
  model_Encode :: "string \<Rightarrow> (string \<times> int) list"
  model_NBestEncode :: "string \<Rightarrow> int \<Rightarrow> ((string \<times> int) list \<times> real) list"
  model_SampleEncode :: "string \<Rightarrow> real \<Rightarrow> (string \<times> int) list"
  model_IsNBestEncodeAvailable :: bool
  model_IsSampleEncodeAvailable :: bool
  model_PieceToId :: "string \<Rightarrow> int"
  model_IdToPiece :: "int \<Rightarrow> string"
  model_piece_type :: "int \<Rightarrow> piece_type"
  model_ByteFallbackEnabled :: bool
  model_unk_piece :: string
  model_bos_piece :: string
  model_eos_piece :: string
  model_pad_piece :: string

text \<open>Modelled from the spec: the predicates \<open>IsControl\<close>, \<open>IsUnknown\<close> and \<open>IsByte\<close> of
  the model are declared in \<open>model_interface.h\<close>, which is not among the sources.  The spec
  gives every vocabulary piece one type out of NORMAL, UNKNOWN, CONTROL, USER_DEFINED,
  UNUSED and BYTE, and the predicates classify an id by the type of its piece.\<close>

definition model_IsControl :: "ModelInterface \<Rightarrow> int \<Rightarrow> bool" where
  "model_IsControl m i = (model_piece_type m i = CONTROL)"

definition model_IsUnknown :: "ModelInterface \<Rightarrow> int \<Rightarrow> bool" where
  "model_IsUnknown m i = (model_piece_type m i = UNKNOWN)"

definition model_IsByte :: "ModelInterface \<Rightarrow> int \<Rightarrow> bool" where
  "model_IsByte m i = (model_piece_type m i = BYTE)"

subsection \<open>Run-length unfolding of ids\<close>

text \<open>The loop \<open>while (it1 != it2)\<close> of \<open>_expand_from_ids\<close>, with the iterators as
  indices.\<close>

function collect_num_ids ::
  "ModelInterface \<Rightarrow> int list \<Rightarrow> nat \<Rightarrow> nat \<Rightarrow> int list \<Rightarrow> error + int list" where
  "collect_num_ids m ids j end_position num =
     (if j = end_position then Inr num
      else if length ids \<le> j then Inl OutOfBounds
      else (case stoi (model_IdToPiece m (ids ! j)) of
              Inl e \<Rightarrow> Inl e
            | Inr d \<Rightarrow> collect_num_ids m ids (j + 1) end_position (num @ [d])))"
  by pat_completeness auto
termination
  by (relation "measure (\<lambda>(m, ids, j, end_position, num). length ids - j)") auto

declare collect_num_ids.simps [simp del]

text \<open>\<open>_expand_from_ids\<close>.  The ids before the start marker are copied, the repeated
  symbol among them; the symbol is read at \<open>it1 - 1\<close>; \<open>count\<close> is the number between the
  markers, and \<open>count\<close> more copies of the symbol are pushed; the ids from
  \<open>end_position + 1\<close> on are copied until the index equals \<open>ids.size()\<close>, which it never
  does when no end marker was found.\<close>

definition expand_from_ids_once :: "ModelInterface \<Rightarrow> int list \<Rightarrow> error + int list" where
  "expand_from_ids_once m ids =
     (let start_position = find_pos ids (model_PieceToId m kStartRepeat);
          end_position = find_pos ids (model_PieceToId m kEndRepeat);
          new_ids = take start_position ids
      in if start_position = 0 then Inl OutOfBounds
         else let symbol = ids ! (start_position - 1)
              in (case collect_num_ids m ids (start_position + 1) end_position [] of
                    Inl e \<Rightarrow> Inl e
                  | Inr num \<Rightarrow>
                      let count = VectorToInt num;
                          new_ids = new_ids @ replicate (nat count) symbol
                      in if length ids < end_position + 1 then Inl OutOfBounds
                         else Inr (new_ids @ drop (end_position + 1) ids)))"

partial_function (option) expand_from_ids ::
  "ModelInterface \<Rightarrow> int list \<Rightarrow> (error + int list) option" where
  "expand_from_ids m new_ids =
     (if find_pos new_ids (model_PieceToId m kStartRepeat) \<noteq> length new_ids
      then (case expand_from_ids_once m new_ids of
              Inl e \<Rightarrow> Some (Inl e)
            | Inr new_ids' \<Rightarrow> expand_from_ids m new_ids')
      else Some (Inr new_ids))"

declare expand_from_ids.simps [code]

subsection \<open>The processor and its messages\<close>

record Normalizer =
  normalizer_status :: "error option"
  Normalize :: "string \<Rightarrow> error + string \<times> nat list"

text \<open>The fields of the model file that the processor reads.  An absent \<open>trainer_spec\<close>
  is \<open>None\<close> (\<open>has_trainer_spec()\<close>), and so is an absent \<open>unk_surface\<close>.\<close>

record NormalizerSpec =
  add_dummy_prefix :: bool
  remove_extra_whitespaces :: bool

record TrainerSpec =
  treat_whitespace_as_suffix :: bool
  unk_surface :: "string option"

record ModelProto =
  trainer_spec :: "TrainerSpec option"
  normalizer_spec :: NormalizerSpec

datatype ExtraOption = REVERSE | BOS | EOS

text \<open>The members of \<open>SentencePieceProcessor\<close>; a \<open>unique_ptr\<close> that is null is \<open>None\<close>.
  The member \<open>model_\<close> is \<open>model_ptr\<close> here, and so on, since a name cannot end with an
  underscore.\<close>

record SentencePieceProcessor =
  model_ptr :: "ModelInterface option"
  normalizer_ptr :: "Normalizer option"
  denormalizer_ptr :: "Normalizer option"
  model_proto_ptr :: "ModelProto option"
  encode_extra_options :: "ExtraOption list"
  decode_extra_options :: "ExtraOption list"

text \<open>The messages \<open>SentencePieceText::SentencePiece\<close> and \<open>SentencePieceText\<close>, their
  fields prefixed with \<open>sp_\<close> and \<open>spt_\<close>.  A field that was never set reads as its
  default, the empty string or 0.\<close>

record SentencePiece =
  sp_piece :: string
  sp_id :: int
  sp_surface :: string
  sp_begin :: nat
  sp_end :: nat

record SentencePieceText =
  spt_text :: string
  spt_pieces :: "SentencePiece list"
  spt_score :: real

definition cleared_spt :: SentencePieceText where
  "cleared_spt = \<lparr>spt_text = [], spt_pieces = [], spt_score = 0\<rparr>"

definition add_pieces :: "SentencePieceText \<Rightarrow> SentencePiece \<Rightarrow> SentencePieceText" where
  "add_pieces spt sp = spt\<lparr>spt_pieces := spt_pieces spt @ [sp]\<rparr>"

definition status :: "SentencePieceProcessor \<Rightarrow> error option" where
  "status p =
     (case model_ptr p of
        None \<Rightarrow> Some Internal
      | Some m \<Rightarrow>
          (case normalizer_ptr p of
             None \<Rightarrow> Some Internal
           | Some n \<Rightarrow>
               (case model_status m of
                  Some e \<Rightarrow> Some e
                | None \<Rightarrow> normalizer_status n)))"

text \<open>The accessors guarded by \<open>CHECK_STATUS_OR_RETURN_DEFAULT\<close>: the default value unless
  the status is ok, and the answer of the model otherwise.\<close>

definition PieceToId :: "SentencePieceProcessor \<Rightarrow> string \<Rightarrow> int" where
  "PieceToId p piece =
     (case (status p, model_ptr p) of (None, Some m) \<Rightarrow> model_PieceToId m piece | _ \<Rightarrow> 0)"


definition IsControl :: "SentencePieceProcessor \<Rightarrow> int \<Rightarrow> bool" where
  "IsControl p i =
     (case (status p, model_ptr p) of (None, Some m) \<Rightarrow> model_IsControl m i | _ \<Rightarrow> False)"

definition IsUnknown :: "SentencePieceProcessor \<Rightarrow> int \<Rightarrow> bool" where
  "IsUnknown p i =
     (case (status p, model_ptr p) of (None, Some m) \<Rightarrow> model_IsUnknown m i | _ \<Rightarrow> False)"

definition IsByte :: "SentencePieceProcessor \<Rightarrow> int \<Rightarrow> bool" where
  "IsByte p i =
     (case (status p, model_ptr p) of (None, Some m) \<Rightarrow> model_IsByte m i | _ \<Rightarrow> False)"

text \<open>\<open>absl::string_view(s.data())\<close> views a \<open>std::string\<close> as a C string: it ends at the
  first NUL byte.\<close>

definition c_str_view :: "string \<Rightarrow> string" where
  "c_str_view s = takeWhile (\<lambda>c. c \<noteq> CHR 0x00) s"

text \<open>\<open>unk_id\<close>, \<open>bos_id\<close>, \<open>eos_id\<close> and \<open>pad_id\<close> read the special piece through
  \<open>model_\<close> without a test of the pointer.\<close>

definition unk_id :: "SentencePieceProcessor \<Rightarrow> error + int" where
  "unk_id p =
     (case model_ptr p of
        None \<Rightarrow> Inl NullPointer
      | Some m \<Rightarrow>
          let i = PieceToId p (c_str_view (model_unk_piece m))
          in Inr (if IsUnknown p i then i else - 1))"

definition bos_id :: "SentencePieceProcessor \<Rightarrow> error + int" where
  "bos_id p =
     (case model_ptr p of
        None \<Rightarrow> Inl NullPointer
      | Some m \<Rightarrow>
          let i = PieceToId p (c_str_view (model_bos_piece m))
          in Inr (if IsControl p i then i else - 1))"

definition eos_id :: "SentencePieceProcessor \<Rightarrow> error + int" where
  "eos_id p =
     (case model_ptr p of
        None \<Rightarrow> Inl NullPointer
      | Some m \<Rightarrow>
          let i = PieceToId p (c_str_view (model_eos_piece m))
          in Inr (if IsControl p i then i else - 1))"

definition pad_id :: "SentencePieceProcessor \<Rightarrow> error + int" where
  "pad_id p =
     (case model_ptr p of
        None \<Rightarrow> Inl NullPointer
      | Some m \<Rightarrow>
          let i = PieceToId p (c_str_view (model_pad_piece m))
          in Inr (if IsControl p i then i else - 1))"

subsection \<open>Extra options\<close>

text \<open>\<open>ApplyExtraOptions\<close>.  The piece that \<open>EOS\<close> or \<open>BOS\<close> adds has its id and its
  text set and nothing else.  The \<open>default\<close> branch of the \<open>switch\<close> is for a value
  outside the enumeration, which \<open>ExtraOption\<close> does not have.\<close>

fun ApplyExtraOptions ::
  "SentencePieceProcessor \<Rightarrow> ExtraOption list \<Rightarrow> SentencePieceText \<Rightarrow> error + SentencePieceText" where
  "ApplyExtraOptions p [] spt = Inr spt"
| "ApplyExtraOptions p (REVERSE # extra_options) spt =
     ApplyExtraOptions p extra_options (spt\<lparr>spt_pieces := rev (spt_pieces spt)\<rparr>)"
| "ApplyExtraOptions p (EOS # extra_options) spt =
     (case model_ptr p of
        None \<Rightarrow> Inl NullPointer
      | Some m \<Rightarrow>
          ApplyExtraOptions p extra_options
            (spt\<lparr>spt_pieces := spt_pieces spt @
                 [\<lparr>sp_piece = model_eos_piece m,
                   sp_id = PieceToId p (c_str_view (model_eos_piece m)),
                   sp_surface = [], sp_begin = 0, sp_end = 0\<rparr>]\<rparr>))"
| "ApplyExtraOptions p (BOS # extra_options) spt =
     (case model_ptr p of
        None \<Rightarrow> Inl NullPointer
      | Some m \<Rightarrow>
          ApplyExtraOptions p extra_options
            (spt\<lparr>spt_pieces :=
                 \<lparr>sp_piece = model_bos_piece m,
                  sp_id = PieceToId p (c_str_view (model_bos_piece m)),
                  sp_surface = [], sp_begin = 0, sp_end = 0\<rparr> # spt_pieces spt\<rparr>))"

subsection \<open>The encode walk\<close>

definition hex_digit :: "nat \<Rightarrow> char" where
  "hex_digit d = ''0123456789ABCDEF'' ! d"

text \<open>Modelled from the spec: \<open>ByteToPiece\<close> is defined in \<open>model_interface.cc\<close>, which is
  not among the sources.  The spec spells the piece of a byte \<open><0xFF>\<close>: the byte as two
  upper-case hexadecimal digits.\<close>

definition ByteToPiece :: "char \<Rightarrow> string" where
  "ByteToPiece b =
     ''<0x'' @ [hex_digit (of_char b div 16), hex_digit (of_char b mod 16)] @ ''>''"

definition ClippedSubstr :: "string \<Rightarrow> nat \<Rightarrow> nat \<Rightarrow> string" where
  "ClippedSubstr s pos n = take n (drop pos s)"

text \<open>The variables of the loop of \<open>PopulateSentencePieceText\<close>, and the message it
  fills.\<close>

record walk =
  consumed :: nat
  is_prev_unk :: bool
  walk_spt :: SentencePieceText

text \<open>The \<open>for\<close> loop that decomposes an unknown piece into its bytes.\<close>

function byte_pieces ::
  "ModelInterface \<Rightarrow> string \<Rightarrow> string \<Rightarrow> nat \<Rightarrow> nat \<Rightarrow> nat \<Rightarrow> SentencePieceText
     \<Rightarrow> SentencePieceText" where
  "byte_pieces m w surface orig_begin orig_end i spt =
     (if i < length w
      then let piece = ByteToPiece (w ! i);
               sp_id = model_PieceToId m piece;
               sp = (if i = length w - 1
                     then \<lparr>sp_piece = piece, sp_id = sp_id, sp_surface = surface,
                           sp_begin = orig_begin, sp_end = orig_end\<rparr>
                     else \<lparr>sp_piece = piece, sp_id = sp_id, sp_surface = [],
                           sp_begin = orig_begin, sp_end = orig_begin\<rparr>)
           in byte_pieces m w surface orig_begin orig_end (i + 1) (add_pieces spt sp)
      else spt)"
  by pat_completeness auto
termination
  by (relation "measure (\<lambda>(m, w, surface, orig_begin, orig_end, i, spt). length w - i)") auto

declare byte_pieces.simps [simp del]

text \<open>\<open>is_unk && model_->ByteFallbackEnabled()\<close>: the model is only asked, and the
  pointer only read, for an unknown piece.\<close>

definition unk_byte_fallback :: "SentencePieceProcessor \<Rightarrow> bool \<Rightarrow> error + bool" where
  "unk_byte_fallback p is_unk =
     (if \<not> is_unk then Inr False
      else (case model_ptr p of
              None \<Rightarrow> Inl NullPointer
            | Some m \<Rightarrow> Inr (model_ByteFallbackEnabled m)))"

text \<open>The branch that merges a run of unknown pieces or adds a fresh piece.\<close>

definition merge_or_add ::
  "bool \<Rightarrow> bool \<Rightarrow> string \<Rightarrow> int \<Rightarrow> string \<Rightarrow> nat \<Rightarrow> nat \<Rightarrow> SentencePieceText
     \<Rightarrow> error + SentencePieceText" where
  "merge_or_add prev_unk is_unk w i surface orig_begin orig_end spt =
     (if prev_unk \<and> is_unk
      then (if spt_pieces spt = [] then Inl OutOfBounds
            else let sp = last (spt_pieces spt)
                 in Inr (spt\<lparr>spt_pieces := butlast (spt_pieces spt) @
                           [sp\<lparr>sp_piece := sp_piece sp @ w,
                               sp_surface := sp_surface sp @ surface,
                               sp_end := orig_end\<rparr>]\<rparr>))
      else Inr (add_pieces spt
                  \<lparr>sp_piece = w, sp_id = i, sp_surface = surface,
                   sp_begin = orig_begin, sp_end = orig_end\<rparr>))"

text \<open>One round of the loop of \<open>PopulateSentencePieceText\<close>, for the pair \<open>(w, id)\<close> of
  the model's result.  Every \<open>CHECK_..._OR_RETURN\<close> that fails returns \<open>Internal\<close>;
  \<open>norm_to_orig[consumed]\<close> of the control branch is read without a check.\<close>

definition populate_piece ::
  "SentencePieceProcessor \<Rightarrow> string \<Rightarrow> nat list \<Rightarrow> walk \<Rightarrow> string \<times> int \<Rightarrow> error + walk" where
  "populate_piece p input norm_to_orig st pr =
     (let w = fst pr; i = snd pr
      in if w = [] then Inl Internal
         else let is_unk = IsUnknown p i
              in if IsControl p i
                 then (if length norm_to_orig \<le> consumed st then Inl OutOfBounds
                       else Inr (st\<lparr>is_prev_unk := is_unk,
                                   walk_spt := add_pieces (walk_spt st)
                                     \<lparr>sp_piece = w, sp_id = i, sp_surface = [],
                                      sp_begin = norm_to_orig ! consumed st,
                                      sp_end = norm_to_orig ! consumed st\<rparr>\<rparr>))
                 else let begin_pos = consumed st; end_pos = consumed st + length w
                      in if \<not> begin_pos < length norm_to_orig then Inl Internal
                         else if \<not> end_pos < length norm_to_orig then Inl Internal
                         else let orig_begin = norm_to_orig ! begin_pos;
                                  orig_end = norm_to_orig ! end_pos
                              in if \<not> orig_begin \<le> length input then Inl Internal
                                 else if \<not> orig_end \<le> length input then Inl Internal
                                 else if \<not> orig_begin \<le> orig_end then Inl Internal
                                 else let surface = ClippedSubstr input orig_begin (orig_end - orig_begin)
                                      in (case unk_byte_fallback p is_unk of
                                            Inl e \<Rightarrow> Inl e
                                          | Inr True \<Rightarrow>
                                              (case model_ptr p of
                                                 None \<Rightarrow> Inl NullPointer
                                               | Some m \<Rightarrow>
                                                   Inr \<lparr>consumed = consumed st + length w,
                                                        is_prev_unk = is_unk,
                                                        walk_spt = byte_pieces m w surface orig_begin
                                                                     orig_end 0 (walk_spt st)\<rparr>)
                                          | Inr False \<Rightarrow>
                                              (case merge_or_add (is_prev_unk st) is_unk w i surface
                                                      orig_begin orig_end (walk_spt st) of
                                                 Inl e \<Rightarrow> Inl e
                                               | Inr spt \<Rightarrow>
                                                   Inr \<lparr>consumed = consumed st + length w,
                                                        is_prev_unk = is_unk,
                                                        walk_spt = spt\<rparr>)))"

fun populate_loop ::
  "SentencePieceProcessor \<Rightarrow> string \<Rightarrow> nat list \<Rightarrow> walk \<Rightarrow> (string \<times> int) list \<Rightarrow> error + walk" where
  "populate_loop p input norm_to_orig st [] = Inr st"
| "populate_loop p input norm_to_orig st (pr # result) =
     (case populate_piece p input norm_to_orig st pr of
        Inl e \<Rightarrow> Inl e
      | Inr st' \<Rightarrow> populate_loop p input norm_to_orig st' result)"

definition PopulateSentencePieceText ::
  "SentencePieceProcessor \<Rightarrow> string \<Rightarrow> string \<Rightarrow> nat list \<Rightarrow> (string \<times> int) list
     \<Rightarrow> SentencePieceText \<Rightarrow> error + SentencePieceText" where
  "PopulateSentencePieceText p input normalized norm_to_orig result spt =
     (case populate_loop p input norm_to_orig
             \<lparr>consumed = 0, is_prev_unk = False, walk_spt = spt\<rparr> result of
        Inl e \<Rightarrow> Inl e
      | Inr st \<Rightarrow>
          if consumed st \<noteq> length normalized then Inl Internal
          else (case ApplyExtraOptions p (encode_extra_options p) (walk_spt st) of
                  Inl e \<Rightarrow> Inl e
                | Inr spt' \<Rightarrow> Inr (spt'\<lparr>spt_text := input\<rparr>)))"

subsection \<open>Encoding\<close>

text \<open>\<open>Encode(input, spt)\<close>: \<open>CHECK_OR_RETURN_STATUS_PROTO\<close> returns the status unless it
  is ok and clears the message; then the text is normalized, the model encodes it, and
  the walk fills the message.\<close>

definition Encode :: "SentencePieceProcessor \<Rightarrow> string \<Rightarrow> error + SentencePieceText" where
  "Encode p input =
     (case status p of
        Some e \<Rightarrow> Inl e
      | None \<Rightarrow>
          (case (model_ptr p, normalizer_ptr p) of
             (Some m, Some n) \<Rightarrow>
               (case Normalize n input of
                  Inl e \<Rightarrow> Inl e
                | Inr (normalized, norm_to_orig) \<Rightarrow>
                    PopulateSentencePieceText p input normalized norm_to_orig
                      (model_Encode m normalized) cleared_spt)
           | _ \<Rightarrow> Inl NullPointer))"



subsection \<open>Decoding one piece\<close>













subsection \<open>Notions used to state the properties of the walk\<close>

text \<open>The number of bytes the walk consumes for a result of the model: the lengths of its
  pieces, the control pieces left out.\<close>

definition non_control_bytes :: "SentencePieceProcessor \<Rightarrow> (string \<times> int) list \<Rightarrow> nat" where
  "non_control_bytes p result =
     sum_list (map (\<lambda>pr. length (fst pr)) (filter (\<lambda>pr. \<not> IsControl p (snd pr)) result))"

text \<open>Modelled from the spec: the normalizer is not among the sources.  The spec says of
  its result that \<open>norm_to_orig[i]\<close> is the offset in the original input of the byte
  aligned with byte \<open>i\<close> of the normalized text, and that it has one entry more than the
  normalized text has bytes.  Offsets into the input are at most its length, and an
  alignment keeps the order.\<close>

definition aligned_offsets :: "string \<Rightarrow> string \<Rightarrow> nat list \<Rightarrow> bool" where
  "aligned_offsets input normalized norm_to_orig =
     (length norm_to_orig = length normalized + 1
      \<and> sorted norm_to_orig
      \<and> list_all (\<lambda>x. x \<le> length input) norm_to_orig)"





text \<open>What holds between two rounds of the walk: the cursor is an index of
  \<open>norm_to_orig\<close>, and a piece was added when the last piece was unknown.\<close>

definition walk_inv :: "nat list \<Rightarrow> walk \<Rightarrow> bool" where
  "walk_inv norm_to_orig st =
     (consumed st < length norm_to_orig \<and> (is_prev_unk st \<longrightarrow> spt_pieces (walk_spt st) \<noteq> []))"


subsection \<open>A small configuration\<close>

text \<open>A vocabulary of ten pieces, a model that cuts a text into its bytes, and a normalizer
  that changes nothing.  The theorems below are instantiated with it.\<close>

definition toy_vocab :: "(string \<times> piece_type) list" where
  "toy_vocab =
     [(''<unk>'', UNKNOWN), (''<s>'', CONTROL), (''</s>'', CONTROL),
      (''(#startrepeat)'', USER_DEFINED), (''(#endrepeat)'', USER_DEFINED),
      (''a'', NORMAL), (''2'', NORMAL), (''b'', NORMAL), (''<pad>'', CONTROL),
      (''<0x7A>'', BYTE)]"

definition toy_PieceToId :: "string \<Rightarrow> int" where
  "toy_PieceToId w =
     (if w \<in> set (map fst toy_vocab) then int (find_pos (map fst toy_vocab) w) else 0)"

definition toy_IdToPiece :: "int \<Rightarrow> string" where
  "toy_IdToPiece i = (if 0 \<le> i \<and> nat i < length toy_vocab then fst (toy_vocab ! nat i) else [])"

definition toy_piece_type :: "int \<Rightarrow> piece_type" where
  "toy_piece_type i = (if 0 \<le> i \<and> nat i < length toy_vocab then snd (toy_vocab ! nat i) else UNUSED)"

definition toy_Encode :: "string \<Rightarrow> (string \<times> int) list" where
  "toy_Encode s = map (\<lambda>c. ([c], toy_PieceToId [c])) s"

definition toy_model :: ModelInterface where
  "toy_model =
     \<lparr>model_status = None,
      model_Encode = toy_Encode,
      model_NBestEncode = (\<lambda>s n. [(toy_Encode s, 0)]),
      model_SampleEncode = (\<lambda>s alpha. [(s, toy_PieceToId s)]),
      model_IsNBestEncodeAvailable = True,
      model_IsSampleEncodeAvailable = True,
      model_PieceToId = toy_PieceToId,
      model_IdToPiece = toy_IdToPiece,
      model_piece_type = toy_piece_type,
      model_ByteFallbackEnabled = False,
      model_unk_piece = ''<unk>'',
      model_bos_piece = ''<s>'',
      model_eos_piece = ''</s>'',
      model_pad_piece = ''<pad>''\<rparr>"

definition toy_normalizer :: Normalizer where
  "toy_normalizer =
     \<lparr>normalizer_status = None,
      Normalize = (\<lambda>s. Inr (s, [0..<length s + 1]))\<rparr>"

definition toy_proto :: ModelProto where
  "toy_proto =
     \<lparr>trainer_spec = Some \<lparr>treat_whitespace_as_suffix = False, unk_surface = None\<rparr>,
      normalizer_spec = \<lparr>add_dummy_prefix = True, remove_extra_whitespaces = True\<rparr>\<rparr>"

definition toy_processor :: SentencePieceProcessor where
  "toy_processor =
     \<lparr>model_ptr = Some toy_model,
      normalizer_ptr = Some toy_normalizer,
      denormalizer_ptr = None,
      model_proto_ptr = Some toy_proto,
      encode_extra_options = [],
      decode_extra_options = []\<rparr>"



text \<open>The same processor with a model that falls back to bytes.\<close>

definition toy_processor_bytes :: SentencePieceProcessor where
  "toy_processor_bytes =
     toy_processor\<lparr>model_ptr := Some (toy_model\<lparr>model_ByteFallbackEnabled := True\<rparr>)\<rparr>"


definition toy_processor_short :: SentencePieceProcessor where
  "toy_processor_short =
     toy_processor\<lparr>model_ptr := Some (toy_model\<lparr>model_Encode := (\<lambda>s. toy_Encode (butlast s))\<rparr>)\<rparr>"

section \<open>Properties of the run-length layer\<close>

lemma find_pos_le: "find_pos xs x \<le> length xs"
  by (induction xs) auto


lemma find_pos_in: "x \<in> set xs \<Longrightarrow> find_pos xs x < length xs"
  by (induction xs) auto


























section \<open>Unfolding on malformed input and on ids\<close>

text \<open>The ids of the small vocabulary: 3 is \<open>(#startrepeat)\<close>, 4 is \<open>(#endrepeat)\<close>, 5 is
  \<open>a\<close> and 6 is \<open>2\<close>.\<close>

text \<open>
  Claim C2.  The unfold of ids computes what the unfold of pieces computes: a folded run
  of \<open>k\<close> identical pieces unfolds to \<open>k\<close> copies on both layers.  The code does not:
  \<open>_expand_from_pieces\<close> inserts \<open>VectorToInt(num) - 1\<close> copies behind the piece it keeps,
  \<open>_expand_from_ids\<close> keeps the symbol too and pushes \<open>VectorToInt(num)\<close> copies.  The fold
  of two pieces \<open>a\<close>, mapped to ids, unfolds to two pieces and to three ids.
\<close>

theorem id_unfold_adds_a_copy:
  "rle [''a'', ''a''] = [''a'', ''(#startrepeat)'', ''2'', ''(#endrepeat)'']
   \<and> map (model_PieceToId toy_model) [''a'', ''(#startrepeat)'', ''2'', ''(#endrepeat)''] = [5, 3, 6, 4]
   \<and> expand_from_pieces [''a'', ''(#startrepeat)'', ''2'', ''(#endrepeat)''] = Some (Inr [''a'', ''a''])
   \<and> expand_from_ids toy_model [5, 3, 6, 4] = Some (Inr [5, 5, 5])"
  by code_simp

lemma expand_from_pieces_once_open_run:
  "expand_from_pieces_once [''a'', ''(#startrepeat)''] = Inr [''a'', ''(#startrepeat)'']"
  by code_simp

text \<open>
  Claim C9.  The unfold ends on every finite input, also when a \<open>(#startrepeat)\<close> has no
  \<open>(#endrepeat)\<close> behind it.  The code does not: on the pieces \<open>a\<close>, \<open>(#startrepeat)\<close>
  the function \<open>_expand_from_pieces\<close> returns its argument unchanged, so the loop of
  \<open>expand_from_pieces\<close> never ends; on the same ids \<open>_expand_from_ids\<close> starts its last
  loop one past the size and reads outside the vector.
\<close>

theorem unfold_without_end_marker:
  "expand_from_pieces [''a'', ''(#startrepeat)''] = None
   \<and> expand_from_ids toy_model [5, 3] = Some (Inl OutOfBounds)"
proof
  show "expand_from_pieces [''a'', ''(#startrepeat)''] = None"
  proof (cases "expand_from_pieces [''a'', ''(#startrepeat)'']")
    case None
    then show ?thesis .
  next
    case (Some r)
    have "[''a'', ''(#startrepeat)''] \<noteq> [''a'', ''(#startrepeat)'']"
    proof (rule expand_from_pieces.raw_induct
        [where P = "\<lambda>x y. x \<noteq> [''a'', ''(#startrepeat)'']", OF _ Some])
      fix expand :: "string list \<Rightarrow> (error + string list) option" and pieces y
      assume ih: "\<And>x y. expand x = Some y \<Longrightarrow> x \<noteq> [''a'', ''(#startrepeat)'']"
        and step: "(if find_pos pieces kStartRepeat \<noteq> length pieces
            then (case expand_from_pieces_once pieces of
                    Inl e \<Rightarrow> Some (Inl e)
                  | Inr pieces' \<Rightarrow> expand pieces')
            else Some (Inr pieces)) = Some y"
      show "pieces \<noteq> [''a'', ''(#startrepeat)'']"
      proof
        assume eq: "pieces = [''a'', ''(#startrepeat)'']"
        with step have "expand [''a'', ''(#startrepeat)''] = Some y"
          by (simp add: expand_from_pieces_once_open_run kStartRepeat_def)
        then show False using ih by blast
      qed
    qed
    then show ?thesis by simp
  qed
next
  show "expand_from_ids toy_model [5, 3] = Some (Inl OutOfBounds)"
    by code_simp
qed

text \<open>
  Claim C10.  The read of the element before the first \<open>(#startrepeat)\<close> is within
  bounds, also when the marker is the first element.  The code does not: with the marker
  first, \<open>pieces[start_position - 1]\<close> and \<open>*(it1 - 1)\<close> read at index \<open>-1\<close>.
\<close>

theorem unfold_marker_first:
  "expand_from_pieces [''(#startrepeat)'', ''2'', ''(#endrepeat)''] = Some (Inl OutOfBounds)
   \<and> map (model_PieceToId toy_model) [''(#startrepeat)'', ''2'', ''(#endrepeat)''] = [3, 6, 4]
   \<and> expand_from_ids toy_model [3, 6, 4] = Some (Inl OutOfBounds)"
  by code_simp

section \<open>Sampling and the special ids\<close>




lemma c_str_view_id: "CHR 0x00 \<notin> set s \<Longrightarrow> c_str_view s = s"
  by (auto simp: c_str_view_def)

text \<open>
  Claim C8.  For a loaded model, \<open>unk_id\<close> returns the id of the unk piece if the model
  classifies that id as UNKNOWN and \<open>-1\<close> otherwise; \<open>bos_id\<close>, \<open>eos_id\<close> and \<open>pad_id\<close>
  return the id of their piece if it is classified CONTROL and \<open>-1\<close> otherwise.  The
  pieces are looked up as C strings, so they are taken to hold no NUL byte.
\<close>

theorem special_ids:
  assumes "status p = None" "model_ptr p = Some m"
    and "CHR 0x00 \<notin> set (model_unk_piece m)" "CHR 0x00 \<notin> set (model_bos_piece m)"
    and "CHR 0x00 \<notin> set (model_eos_piece m)" "CHR 0x00 \<notin> set (model_pad_piece m)"
  shows "unk_id p = Inr (if model_piece_type m (model_PieceToId m (model_unk_piece m)) = UNKNOWN
                         then model_PieceToId m (model_unk_piece m) else - 1)
       \<and> bos_id p = Inr (if model_piece_type m (model_PieceToId m (model_bos_piece m)) = CONTROL
                         then model_PieceToId m (model_bos_piece m) else - 1)
       \<and> eos_id p = Inr (if model_piece_type m (model_PieceToId m (model_eos_piece m)) = CONTROL
                         then model_PieceToId m (model_eos_piece m) else - 1)
       \<and> pad_id p = Inr (if model_piece_type m (model_PieceToId m (model_pad_piece m)) = CONTROL
                         then model_PieceToId m (model_pad_piece m) else - 1)"
  using assms
  by (simp add: unk_id_def bos_id_def eos_id_def pad_id_def PieceToId_def IsUnknown_def
      IsControl_def model_IsUnknown_def model_IsControl_def c_str_view_id Let_def)

theorem special_ids_witness:
  "status toy_processor = None \<and> model_ptr toy_processor = Some toy_model
   \<and> CHR 0x00 \<notin> set (model_unk_piece toy_model) \<and> CHR 0x00 \<notin> set (model_bos_piece toy_model)
   \<and> CHR 0x00 \<notin> set (model_eos_piece toy_model) \<and> CHR 0x00 \<notin> set (model_pad_piece toy_model)
   \<and> unk_id toy_processor = Inr 0 \<and> bos_id toy_processor = Inr 1
   \<and> eos_id toy_processor = Inr 2 \<and> pad_id toy_processor = Inr 8
   \<and> unk_id (toy_processor\<lparr>model_ptr := Some (toy_model\<lparr>model_unk_piece := ''a''\<rparr>)\<rparr>) = Inr (- 1)"
proof -
  have a: "status toy_processor = None"
    by (simp add: status_def toy_processor_def toy_model_def toy_normalizer_def)
  have b: "model_ptr toy_processor = Some toy_model" by (simp add: toy_processor_def)
  have c: "CHR 0x00 \<notin> set (model_unk_piece toy_model)" "CHR 0x00 \<notin> set (model_bos_piece toy_model)"
    "CHR 0x00 \<notin> set (model_eos_piece toy_model)" "CHR 0x00 \<notin> set (model_pad_piece toy_model)"
    by (simp_all add: toy_model_def)
  have t: "model_piece_type toy_model = toy_piece_type" "model_PieceToId toy_model = toy_PieceToId"
    "model_unk_piece toy_model = ''<unk>''" "model_bos_piece toy_model = ''<s>''"
    "model_eos_piece toy_model = ''</s>''" "model_pad_piece toy_model = ''<pad>''"
    by (simp_all add: toy_model_def)
  have ids: "toy_PieceToId ''<unk>'' = 0" "toy_PieceToId ''<s>'' = 1" "toy_PieceToId ''</s>'' = 2"
    "toy_PieceToId ''<pad>'' = 8"
    by (simp_all add: toy_PieceToId_def toy_vocab_def)
  have tys: "toy_piece_type 0 = UNKNOWN" "toy_piece_type 1 = CONTROL" "toy_piece_type 2 = CONTROL"
    "toy_piece_type 8 = CONTROL"
    by (simp_all add: toy_piece_type_def toy_vocab_def)
  have d: "unk_id (toy_processor\<lparr>model_ptr := Some (toy_model\<lparr>model_unk_piece := ''a''\<rparr>)\<rparr>) = Inr (- 1)"
    by code_simp
  from special_ids[OF a b c] have "unk_id toy_processor = Inr 0 \<and> bos_id toy_processor = Inr 1
      \<and> eos_id toy_processor = Inr 2 \<and> pad_id toy_processor = Inr 8"
    by (simp add: t ids tys)
  with a b c d show ?thesis by simp
qed

section \<open>Properties of the encode walk\<close>

lemma IsUnknown_model:
  "IsUnknown p i \<Longrightarrow> \<exists>m. model_ptr p = Some m \<and> status p = None \<and> model_piece_type m i = UNKNOWN"
  by (auto simp: IsUnknown_def model_IsUnknown_def split: option.splits)

lemma IsControl_model:
  "IsControl p i \<Longrightarrow> \<exists>m. model_ptr p = Some m \<and> status p = None \<and> model_piece_type m i = CONTROL"
  by (auto simp: IsControl_def model_IsControl_def split: option.splits)

lemma IsControl_not_IsUnknown: "IsControl p i \<Longrightarrow> \<not> IsUnknown p i"
  by (auto dest!: IsUnknown_model IsControl_model)

lemma byte_pieces_eq:
  "i \<le> length w \<Longrightarrow>
   byte_pieces m w surface orig_begin orig_end i spt =
     spt\<lparr>spt_pieces := spt_pieces spt @
        map (\<lambda>k. \<lparr>sp_piece = ByteToPiece (w ! k),
                   sp_id = model_PieceToId m (ByteToPiece (w ! k)),
                   sp_surface = (if k = length w - 1 then surface else []),
                   sp_begin = orig_begin,
                   sp_end = (if k = length w - 1 then orig_end else orig_begin)\<rparr>)
            [i..<length w]\<rparr>"
proof (induction m w surface orig_begin orig_end i spt rule: byte_pieces.induct)
  case (1 m w surface orig_begin orig_end i spt)
  show ?case
  proof (cases "i < length w")
    case True
    have up: "[i..<length w] = i # [i + 1..<length w]"
      using True by (simp add: upt_conv_Cons)
    show ?thesis
      using True "1.IH"[OF True refl refl refl]
      by (subst byte_pieces.simps) (simp add: up add_pieces_def Let_def)
  next
    case False
    with "1.prems" have "i = length w" by simp
    then show ?thesis by (subst byte_pieces.simps) simp
  qed
qed

lemma status_toy: "status toy_processor = None"
  by (simp add: status_def toy_processor_def toy_model_def toy_normalizer_def)


lemma toy_Normalize_ab: "Normalize toy_normalizer ''ab'' = Inr (''ab'', [0, 1, 2])"
  by code_simp

lemma toy_aligned_ab: "aligned_offsets ''ab'' ''ab'' [0, 1, 2]"
  by (simp add: aligned_offsets_def)


text \<open>
  Claim C4.  For a piece \<open>(w, id)\<close> of the model with an UNKNOWN id, when the model has
  byte fallback, the walk emits exactly \<open>|w|\<close> pieces, one per byte of \<open>w\<close>, each with
  the spelling of its byte and the id of that spelling; all but the last have
  \<open>begin = end = orig_begin\<close> and an empty surface, the last has the whole surface and
  the span from \<open>orig_begin\<close> to \<open>orig_end\<close>.  The hypotheses are the checks of the walk
  that come before: the piece is not empty and its span lies within \<open>norm_to_orig\<close> and
  within the input.
\<close>

theorem byte_fallback_pieces:
  assumes m: "model_ptr p = Some m"
    and unk: "IsUnknown p i"
    and fb: "model_ByteFallbackEnabled m"
    and w: "w \<noteq> []"
    and e: "consumed st + length w < length norm_to_orig"
    and o: "norm_to_orig ! consumed st \<le> norm_to_orig ! (consumed st + length w)"
    and b: "norm_to_orig ! (consumed st + length w) \<le> length input"
  shows "populate_piece p input norm_to_orig st (w, i) =
     Inr \<lparr>consumed = consumed st + length w,
          is_prev_unk = True,
          walk_spt = (walk_spt st)\<lparr>spt_pieces := spt_pieces (walk_spt st) @
            map (\<lambda>k. \<lparr>sp_piece = ByteToPiece (w ! k),
                       sp_id = model_PieceToId m (ByteToPiece (w ! k)),
                       sp_surface =
                         (if k = length w - 1
                          then ClippedSubstr input (norm_to_orig ! consumed st)
                                 (norm_to_orig ! (consumed st + length w) - norm_to_orig ! consumed st)
                          else []),
                       sp_begin = norm_to_orig ! consumed st,
                       sp_end =
                         (if k = length w - 1 then norm_to_orig ! (consumed st + length w)
                          else norm_to_orig ! consumed st)\<rparr>)
                [0..<length w]\<rparr>\<rparr>"
proof -
  from unk have nc: "\<not> IsControl p i" using IsControl_not_IsUnknown by blast
  have fbk: "unk_byte_fallback p True = Inr True"
    using m fb by (simp add: unk_byte_fallback_def)
  have c: "consumed st < length norm_to_orig" using e by simp
  have ob: "norm_to_orig ! consumed st \<le> length input" using o b by simp
  show ?thesis
    unfolding populate_piece_def Let_def
    using w nc unk c e o b ob
    by (simp add: fbk m byte_pieces_eq)
qed


theorem byte_fallback_pieces_witness:
  "model_ptr toy_processor_bytes = Some (toy_model\<lparr>model_ByteFallbackEnabled := True\<rparr>)
   \<and> IsUnknown toy_processor_bytes 0
   \<and> model_ByteFallbackEnabled (toy_model\<lparr>model_ByteFallbackEnabled := True\<rparr>)
   \<and> populate_piece toy_processor_bytes ''azzb'' [0, 1, 2, 3, 4]
        \<lparr>consumed = 1, is_prev_unk = False, walk_spt = cleared_spt\<rparr> (''zz'', 0) =
      Inr \<lparr>consumed = 3, is_prev_unk = True,
           walk_spt = \<lparr>spt_text = [],
             spt_pieces =
               [\<lparr>sp_piece = ''<0x7A>'', sp_id = 9, sp_surface = [], sp_begin = 1, sp_end = 1\<rparr>,
                \<lparr>sp_piece = ''<0x7A>'', sp_id = 9, sp_surface = ''zz'', sp_begin = 1, sp_end = 3\<rparr>],
             spt_score = 0\<rparr>\<rparr>"
proof -
  let ?m = "toy_model\<lparr>model_ByteFallbackEnabled := True\<rparr>"
  let ?st = "\<lparr>consumed = 1, is_prev_unk = False, walk_spt = cleared_spt\<rparr>"
  have a: "model_ptr toy_processor_bytes = Some ?m"
    by (simp add: toy_processor_bytes_def)
  have b: "IsUnknown toy_processor_bytes 0" by code_simp
  have c: "model_ByteFallbackEnabled ?m" by simp
  have d: "''zz'' \<noteq> []" by simp
  have e: "consumed ?st + length ''zz'' < length [0, 1, 2, 3, 4::nat]" by simp
  have f: "[0, 1, 2, 3, 4::nat] ! consumed ?st \<le> [0, 1, 2, 3, 4] ! (consumed ?st + length ''zz'')"
    by simp
  have g: "[0, 1, 2, 3, 4::nat] ! (consumed ?st + length ''zz'') \<le> length ''azzb''" by simp
  have ids: "model_PieceToId toy_model ''<0x7A>'' = 9" by code_simp
  have bp: "ByteToPiece CHR ''z'' = ''<0x7A>''" by code_simp
  have up: "[0..<length ''zz''] = [0, 1]" by (simp add: upt_rec)
  have cs: "ClippedSubstr ''azzb'' (Suc 0) 2 = ''zz''" by code_simp
  from byte_fallback_pieces[OF a b c d e f g] a b c show ?thesis
    by (simp add: cleared_spt_def ids bp up cs)
qed

lemma populate_piece_consumed:
  assumes "populate_piece p input norm_to_orig st pr = Inr st'"
  shows "fst pr \<noteq> [] \<and> consumed st' = consumed st + (if IsControl p (snd pr) then 0 else length (fst pr))"
  using assms unfolding populate_piece_def Let_def
  by (auto split: if_splits sum.splits bool.splits option.splits)

lemma populate_loop_consumed:
  "populate_loop p input norm_to_orig st result = Inr st' \<Longrightarrow>
   (\<forall>pr \<in> set result. fst pr \<noteq> []) \<and> consumed st' = consumed st + non_control_bytes p result"
proof (induction result arbitrary: st)
  case Nil
  then show ?case by (simp add: non_control_bytes_def)
next
  case (Cons pr result)
  from Cons.prems obtain st1 where s1: "populate_piece p input norm_to_orig st pr = Inr st1"
    and l: "populate_loop p input norm_to_orig st1 result = Inr st'"
    by (auto split: sum.splits)
  from populate_piece_consumed[OF s1] Cons.IH[OF l] show ?case
    by (auto simp: non_control_bytes_def)
qed

lemma populate_piece_inv:
  assumes "populate_piece p input norm_to_orig st pr = Inr st'" "walk_inv norm_to_orig st"
  shows "walk_inv norm_to_orig st'"
proof (cases "IsControl p (snd pr)")
  case True
  then have "\<not> IsUnknown p (snd pr)" by (rule IsControl_not_IsUnknown)
  with assms True show ?thesis
    unfolding populate_piece_def Let_def walk_inv_def
    by (auto split: if_splits simp: add_pieces_def)
next
  case False
  with assms show ?thesis
    unfolding populate_piece_def Let_def walk_inv_def
    by (auto split: if_splits sum.splits bool.splits option.splits
        simp: add_pieces_def byte_pieces_eq merge_or_add_def Let_def)
qed

lemma populate_piece_error:
  assumes "populate_piece p input norm_to_orig st pr = Inl e" "walk_inv norm_to_orig st"
  shows "e = Internal"
proof (cases "IsUnknown p (snd pr)")
  case True
  then obtain m where "model_ptr p = Some m" using IsUnknown_model by blast
  with assms True show ?thesis
    unfolding populate_piece_def Let_def walk_inv_def
    by (auto split: if_splits sum.splits bool.splits option.splits
        simp: unk_byte_fallback_def merge_or_add_def Let_def)
next
  case False
  with assms show ?thesis
    unfolding populate_piece_def Let_def walk_inv_def
    by (auto split: if_splits sum.splits bool.splits option.splits
        simp: unk_byte_fallback_def merge_or_add_def Let_def)
qed

lemma populate_loop_error:
  "populate_loop p input norm_to_orig st result = Inl e \<Longrightarrow> walk_inv norm_to_orig st \<Longrightarrow>
   e = Internal"
proof (induction result arbitrary: st)
  case Nil
  then show ?case by simp
next
  case (Cons pr result)
  show ?case
  proof (cases "populate_piece p input norm_to_orig st pr")
    case (Inl e')
    with Cons.prems have "e' = e" by simp
    with Inl Cons.prems(2) show ?thesis using populate_piece_error by blast
  next
    case (Inr st1)
    with Cons.prems have "populate_loop p input norm_to_orig st1 result = Inl e" by simp
    moreover have "walk_inv norm_to_orig st1"
      using populate_piece_inv[OF Inr Cons.prems(2)] .
    ultimately show ?thesis by (rule Cons.IH)
  qed
qed

lemma populate_piece_ok:
  assumes inv: "walk_inv norm_to_orig st"
    and w: "fst pr \<noteq> []"
    and fit: "IsControl p (snd pr) \<or> consumed st + length (fst pr) < length norm_to_orig"
    and srt: "sorted norm_to_orig"
    and bnd: "list_all (\<lambda>x. x \<le> length input) norm_to_orig"
  shows "\<exists>st'. populate_piece p input norm_to_orig st pr = Inr st'"
proof (cases "IsControl p (snd pr)")
  case True
  with inv w show ?thesis
    unfolding populate_piece_def Let_def walk_inv_def by simp
next
  case False
  with fit have e: "consumed st + length (fst pr) < length norm_to_orig" by simp
  from inv have c: "consumed st < length norm_to_orig" by (simp add: walk_inv_def)
  have o: "norm_to_orig ! consumed st \<le> norm_to_orig ! (consumed st + length (fst pr))"
    using srt e by (simp add: sorted_nth_mono)
  have b1: "norm_to_orig ! consumed st \<le> length input"
    using bnd c by (simp add: list_all_length)
  have b2: "norm_to_orig ! (consumed st + length (fst pr)) \<le> length input"
    using bnd e by (simp add: list_all_length)
  have fbk: "\<exists>b. unk_byte_fallback p (IsUnknown p (snd pr)) = Inr b"
    using IsUnknown_model[of p "snd pr"] by (auto simp: unk_byte_fallback_def)
  then obtain b where fb: "unk_byte_fallback p (IsUnknown p (snd pr)) = Inr b" ..
  show ?thesis
  proof (cases b)
    case True
    with fb have "IsUnknown p (snd pr)" by (auto simp: unk_byte_fallback_def split: if_splits)
    then obtain m where "model_ptr p = Some m" using IsUnknown_model by blast
    with True fb w False c e o b1 b2 show ?thesis
      unfolding populate_piece_def Let_def by simp
  next
    case nb: False
    have "\<exists>spt. merge_or_add (is_prev_unk st) (IsUnknown p (snd pr)) (fst pr) (snd pr)
        (ClippedSubstr input (norm_to_orig ! consumed st)
           (norm_to_orig ! (consumed st + length (fst pr)) - norm_to_orig ! consumed st))
        (norm_to_orig ! consumed st) (norm_to_orig ! (consumed st + length (fst pr)))
        (walk_spt st) = Inr spt"
      using inv by (auto simp: merge_or_add_def walk_inv_def Let_def)
    then obtain spt where "merge_or_add (is_prev_unk st) (IsUnknown p (snd pr)) (fst pr) (snd pr)
        (ClippedSubstr input (norm_to_orig ! consumed st)
           (norm_to_orig ! (consumed st + length (fst pr)) - norm_to_orig ! consumed st))
        (norm_to_orig ! consumed st) (norm_to_orig ! (consumed st + length (fst pr)))
        (walk_spt st) = Inr spt" ..
    with nb fb w False c e o b1 b2 show ?thesis
      unfolding populate_piece_def Let_def by simp
  qed
qed

lemma non_control_bytes_Cons:
  "non_control_bytes p (pr # result) =
     (if IsControl p (snd pr) then 0 else length (fst pr)) + non_control_bytes p result"
  by (simp add: non_control_bytes_def)


lemma populate_loop_ok:
  assumes srt: "sorted norm_to_orig"
    and bnd: "list_all (\<lambda>x. x \<le> length input) norm_to_orig"
  shows "walk_inv norm_to_orig st \<Longrightarrow> \<forall>pr \<in> set result. fst pr \<noteq> [] \<Longrightarrow>
         consumed st + non_control_bytes p result < length norm_to_orig \<Longrightarrow>
         \<exists>st'. populate_loop p input norm_to_orig st result = Inr st'"
proof (induction result arbitrary: st)
  case Nil
  show ?case by simp
next
  case (Cons pr result)
  have w: "fst pr \<noteq> []" using Cons.prems(2) by simp
  have fit: "IsControl p (snd pr) \<or> consumed st + length (fst pr) < length norm_to_orig"
    using Cons.prems(3) by (cases "IsControl p (snd pr)") (simp_all add: non_control_bytes_Cons)
  from populate_piece_ok[OF Cons.prems(1) w fit srt bnd]
  obtain st1 where s1: "populate_piece p input norm_to_orig st pr = Inr st1" ..
  have inv1: "walk_inv norm_to_orig st1" by (rule populate_piece_inv[OF s1 Cons.prems(1)])
  have "consumed st1 = consumed st + (if IsControl p (snd pr) then 0 else length (fst pr))"
    using populate_piece_consumed[OF s1] by simp
  then have "consumed st1 + non_control_bytes p result < length norm_to_orig"
    using Cons.prems(3) by (simp add: non_control_bytes_Cons)
  moreover have "\<forall>pr \<in> set result. fst pr \<noteq> []" using Cons.prems(2) by simp
  ultimately obtain st' where "populate_loop p input norm_to_orig st1 result = Inr st'"
    using Cons.IH[OF inv1] by blast
  with s1 show ?case by simp
qed

lemma ApplyExtraOptions_ok:
  "model_ptr p = Some m \<Longrightarrow> \<exists>spt'. ApplyExtraOptions p extra_options spt = Inr spt'"
proof (induction extra_options arbitrary: spt)
  case Nil
  show ?case by simp
next
  case (Cons opt extra_options)
  then show ?case by (cases opt) simp_all
qed


lemma Encode_unfold:
  assumes "status p = None" "model_ptr p = Some m" "normalizer_ptr p = Some n"
    and "Normalize n input = Inr (normalized, norm_to_orig)"
  shows "Encode p input =
     PopulateSentencePieceText p input normalized norm_to_orig (model_Encode m normalized) cleared_spt"
  using assms by (simp add: Encode_def)


text \<open>
  Claim C6.  When the status is ok and the normalizer returns offsets as the specification
  describes them, \<open>Encode\<close> fails with \<open>Internal\<close> exactly when the result of the model
  has an empty piece or the bytes of its pieces, the control pieces left out, do not add
  up to the length of the normalized text; otherwise it returns a result.
\<close>

theorem encode_fails_exactly:
  assumes st: "status p = None" and m: "model_ptr p = Some m" and n: "normalizer_ptr p = Some n"
    and norm: "Normalize n input = Inr (normalized, norm_to_orig)"
    and al: "aligned_offsets input normalized norm_to_orig"
  shows "if (\<exists>pr \<in> set (model_Encode m normalized). fst pr = [])
            \<or> non_control_bytes p (model_Encode m normalized) \<noteq> length normalized
         then Encode p input = Inl Internal
         else (\<exists>spt. Encode p input = Inr spt)"
proof -
  let ?result = "model_Encode m normalized"
  let ?st0 = "\<lparr>consumed = 0, is_prev_unk = False, walk_spt = cleared_spt\<rparr>"
  from al have len: "length norm_to_orig = length normalized + 1"
    and srt: "sorted norm_to_orig"
    and bnd: "list_all (\<lambda>x. x \<le> length input) norm_to_orig"
    by (simp_all add: aligned_offsets_def)
  have inv0: "walk_inv norm_to_orig ?st0" using len by (simp add: walk_inv_def)
  have enc: "Encode p input =
      PopulateSentencePieceText p input normalized norm_to_orig ?result cleared_spt"
    by (rule Encode_unfold[OF st m n norm])
  show ?thesis
  proof (cases "(\<exists>pr \<in> set ?result. fst pr = [])
      \<or> non_control_bytes p ?result \<noteq> length normalized")
    case bad: True
    have "PopulateSentencePieceText p input normalized norm_to_orig ?result cleared_spt = Inl Internal"
    proof (cases "populate_loop p input norm_to_orig ?st0 ?result")
      case (Inl e)
      then have "e = Internal" using populate_loop_error[OF _ inv0] by blast
      with Inl show ?thesis by (simp add: PopulateSentencePieceText_def)
    next
      case (Inr st')
      from populate_loop_consumed[OF Inr]
      have "\<forall>pr \<in> set ?result. fst pr \<noteq> []" and "consumed st' = non_control_bytes p ?result"
        by simp_all
      with bad have "consumed st' \<noteq> length normalized" by auto
      with Inr show ?thesis by (simp add: PopulateSentencePieceText_def)
    qed
    with bad enc show ?thesis by simp
  next
    case good: False
    then have ne: "\<forall>pr \<in> set ?result. fst pr \<noteq> []"
      and tot: "non_control_bytes p ?result = length normalized" by auto
    have "consumed ?st0 + non_control_bytes p ?result < length norm_to_orig"
      using tot len by simp
    from populate_loop_ok[OF srt bnd inv0 ne this]
    obtain st' where l: "populate_loop p input norm_to_orig ?st0 ?result = Inr st'" ..
    from populate_loop_consumed[OF l] tot have c: "consumed st' = length normalized" by simp
    from ApplyExtraOptions_ok[OF m]
    obtain spt' where "ApplyExtraOptions p (encode_extra_options p) (walk_spt st') = Inr spt'" ..
    with l c have "PopulateSentencePieceText p input normalized norm_to_orig ?result cleared_spt
        = Inr (spt'\<lparr>spt_text := input\<rparr>)"
      by (simp add: PopulateSentencePieceText_def)
    with good enc show ?thesis by auto
  qed
qed

theorem encode_fails_exactly_witness:
  "status toy_processor = None \<and> model_ptr toy_processor = Some toy_model
   \<and> normalizer_ptr toy_processor = Some toy_normalizer
   \<and> Normalize toy_normalizer ''ab'' = Inr (''ab'', [0, 1, 2])
   \<and> aligned_offsets ''ab'' ''ab'' [0, 1, 2]
   \<and> model_Encode toy_model ''ab'' = [(''a'', 5), (''b'', 7)]
   \<and> (\<exists>spt. Encode toy_processor ''ab'' = Inr spt)
   \<and> model_Encode (toy_model\<lparr>model_Encode := (\<lambda>s. toy_Encode (butlast s))\<rparr>) ''ab'' = [(''a'', 5)]
   \<and> Encode toy_processor_short ''ab'' = Inl Internal"
proof -
  let ?m = "toy_model\<lparr>model_Encode := (\<lambda>s. toy_Encode (butlast s))\<rparr>"
  have a: "status toy_processor = None" by (rule status_toy)
  have b: "model_ptr toy_processor = Some toy_model" by (simp add: toy_processor_def)
  have c: "normalizer_ptr toy_processor = Some toy_normalizer" by (simp add: toy_processor_def)
  have r: "model_Encode toy_model ''ab'' = [(''a'', 5), (''b'', 7)]" by code_simp
  have t: "non_control_bytes toy_processor [(''a'', 5), (''b'', 7)] = 2" by code_simp
  have a': "status toy_processor_short = None"
    by (simp add: status_def toy_processor_short_def toy_processor_def toy_model_def
        toy_normalizer_def)
  have b': "model_ptr toy_processor_short = Some ?m"
    by (simp add: toy_processor_short_def)
  have c': "normalizer_ptr toy_processor_short = Some toy_normalizer"
    by (simp add: toy_processor_short_def toy_processor_def)
  have r': "model_Encode ?m ''ab'' = [(''a'', 5)]" by code_simp
  have t': "non_control_bytes toy_processor_short [(''a'', 5)] = 1" by code_simp
  have te: "toy_Encode ''a'' = [(''a'', 5)]" by code_simp
  from encode_fails_exactly[OF a b c toy_Normalize_ab toy_aligned_ab]
  have ok: "\<exists>spt. Encode toy_processor ''ab'' = Inr spt" by (simp add: r t)
  from encode_fails_exactly[OF a' b' c' toy_Normalize_ab toy_aligned_ab]
  have bad: "Encode toy_processor_short ''ab'' = Inl Internal" by (simp add: te t')
  from a b c r r' ok bad toy_Normalize_ab toy_aligned_ab show ?thesis by simp
qed












section \<open>Properties of decoding one piece\<close>















end
